theory Spec2Isabelle
  imports Complex_Main "HOL-Library.Word"
begin

section \<open>The image toolkit: size estimation, transcoding, page layout, PDF assembly\<close>

text \<open>
  The source file \<^verbatim>\<open>src/scripts/main.js\<close> holds two revisions of the same script, one
  after the other. As in the specification, the first (lines 1 to 629) is called the
  earlier revision and the second (from line 630 on) the later one. Where the two
  revisions have the same text, one definition stands for both; where they differ, the
  earlier revision's definition carries the suffix \<open>_v1\<close> and the later one's the suffix
  \<open>_v2\<close>.

  JavaScript numbers are doubles. The size estimates and the page layout are modelled in
  exact real arithmetic: \<open>+\<close>, \<open>-\<close>, \<open>*\<close> and \<open>/\<close> are those of \<^typ>\<open>real\<close>. Where a
  result depends on the rounding of double precision, the rounding is written out with
  \<open>fl\<close>: in the weighted sum of the grayscale transform, whose result is rounded to a
  byte, and in the definitions that end in \<open>_f64\<close>, which compare the two batch
  estimators bit for bit. File sizes and pixel dimensions are natural numbers, bytes of a
  pixel buffer are 8-bit words.
\<close>

subsection \<open>Strings\<close>

text \<open>\<^verbatim>\<open>String.prototype.includes\<close>: the second string occurs in the first one.\<close>

fun startsWith :: "string \<Rightarrow> string \<Rightarrow> bool" where
  "startsWith s [] = True"
| "startsWith [] (c # cs) = False"
| "startsWith (x # xs) (c # cs) = (x = c \<and> startsWith xs cs)"

fun str_includes :: "string \<Rightarrow> string \<Rightarrow> bool" where
  "str_includes [] sub = (sub = [])"
| "str_includes (x # xs) sub = (startsWith (x # xs) sub \<or> str_includes xs sub)"

subsection \<open>The working set\<close>

text \<open>
  \<^verbatim>\<open>singleFile = { file, url, name, size }\<close> and the entries
  \<^verbatim>\<open>{ id, file, url, name, size }\<close> of \<^verbatim>\<open>pdfFiles\<close>. Of the \<^verbatim>\<open>File\<close> object only
  its declared mime type \<^verbatim>\<open>file.type\<close> is read; it is the field \<open>ftype\<close>. The fields
  \<open>fsize\<close> and \<open>fid\<close> are the source's \<^verbatim>\<open>size\<close> and \<^verbatim>\<open>id\<close>.
\<close>

record single_file =
  ftype :: string
  url :: string
  name :: string
  fsize :: nat

record pdf_file = single_file +
  fid :: string

subsection \<open>Size estimation\<close>

text \<open>
  The reduction factor is computed by the same four lines in \<^verbatim>\<open>updatePdfCompressionSize\<close>
  (252 to 256), in both revisions of \<^verbatim>\<open>updateCompressionSize\<close> (398 to 402, 934 to 939)
  and in \<^verbatim>\<open>updatePdfSizeInfo\<close> (695 to 699). The argument is \<^verbatim>\<open>parseFloat(slider.value)\<close>.
\<close>

definition reductionFactor :: "real \<Rightarrow> real" where
  "reductionFactor quality =
     (let qualityRatio = quality / 100;
          maxCompressionFactor = 0.9;
          reductionFactor = 1 - (maxCompressionFactor * (1 - qualityRatio))
      in if reductionFactor < 0.1 then 0.1 else reductionFactor)"

text \<open>
  \<^verbatim>\<open>updateCompressionSize\<close>, earlier revision: the value of \<^verbatim>\<open>estimatedBytes\<close> that lines
  398 to 408 compute for the selected file, and the function as a whole, which shows no
  estimate (\<open>None\<close>) when no file is selected or the file is empty.
\<close>

definition estimatedBytes_v1 :: "'a single_file_scheme \<Rightarrow> real \<Rightarrow> real" where
  "estimatedBytes_v1 singleFile quality =
     (let estimatedBytes = real (fsize singleFile) * reductionFactor quality
      in if str_includes (ftype singleFile) ''png''
         then max (real (fsize singleFile) * 0.8) estimatedBytes
         else estimatedBytes)"

definition updateCompressionSize_v1 :: "single_file option \<Rightarrow> real \<Rightarrow> real option" where
  "updateCompressionSize_v1 singleFile quality =
     (case singleFile of
        None \<Rightarrow> None
      | Some f \<Rightarrow> if fsize f = 0 then None else Some (estimatedBytes_v1 f quality))"

text \<open>
  \<^verbatim>\<open>updateCompressionSize\<close>, later revision (lines 923 to 950): the same, but the file
  counts as PNG only when its type is exactly \<^verbatim>\<open>image/png\<close>.
\<close>

definition estimatedBytes_v2 :: "'a single_file_scheme \<Rightarrow> real \<Rightarrow> real" where
  "estimatedBytes_v2 singleFile quality =
     (let estimatedBytes = real (fsize singleFile) * reductionFactor quality
      in if ftype singleFile = ''image/png''
         then max (real (fsize singleFile) * 0.8) estimatedBytes
         else estimatedBytes)"

definition updateCompressionSize_v2 :: "single_file option \<Rightarrow> real \<Rightarrow> real option" where
  "updateCompressionSize_v2 singleFile quality =
     (case singleFile of
        None \<Rightarrow> None
      | Some f \<Rightarrow> if fsize f = 0 then None else Some (estimatedBytes_v2 f quality))"

text \<open>
  The batch estimator of the earlier revision, \<^verbatim>\<open>updatePdfCompressionSize\<close> (lines 228
  to 261), with \<^verbatim>\<open>getTotalPdfOriginalSize\<close> (221 to 223): the reduction factor is
  applied to the summed sizes, and nothing is estimated when the total is 0.
\<close>

definition getTotalPdfOriginalSize :: "pdf_file list \<Rightarrow> nat" where
  "getTotalPdfOriginalSize pdfFiles = foldl (\<lambda>total file. total + fsize file) 0 pdfFiles"

definition estimatedBytes_pdf_v1 :: "pdf_file list \<Rightarrow> real \<Rightarrow> real" where
  "estimatedBytes_pdf_v1 pdfFiles quality =
     (let totalOriginalSize = getTotalPdfOriginalSize pdfFiles
      in real totalOriginalSize * reductionFactor quality)"

definition updatePdfCompressionSize :: "pdf_file list \<Rightarrow> real \<Rightarrow> real option" where
  "updatePdfCompressionSize pdfFiles quality =
     (if getTotalPdfOriginalSize pdfFiles = 0 then None
      else Some (estimatedBytes_pdf_v1 pdfFiles quality))"

text \<open>
  The batch estimator of the later revision, \<^verbatim>\<open>updatePdfSizeInfo\<close> (lines 670 to 713):
  the \<^verbatim>\<open>forEach\<close> of lines 701 to 710 adds one term per file to \<^verbatim>\<open>estimatedBytes\<close>.
  The first argument of the function is the slider's value, \<open>None\<close> when the element is
  missing; nothing is estimated then, or when the list is empty.
\<close>

definition estimatedBytes_pdf_v2 :: "pdf_file list \<Rightarrow> real \<Rightarrow> real" where
  "estimatedBytes_pdf_v2 pdfFiles quality =
     (let reductionFactor = reductionFactor quality
      in foldl (\<lambda>estimatedBytes file.
                  if str_includes (ftype file) ''png''
                  then estimatedBytes
                       + max (real (fsize file) * 0.8) (real (fsize file) * reductionFactor)
                  else estimatedBytes + real (fsize file) * reductionFactor)
           0 pdfFiles)"

definition updatePdfSizeInfo :: "real option \<Rightarrow> pdf_file list \<Rightarrow> real option" where
  "updatePdfSizeInfo slider pdfFiles =
     (case slider of
        None \<Rightarrow> None
      | Some quality \<Rightarrow>
          if length pdfFiles = 0 then None else Some (estimatedBytes_pdf_v2 pdfFiles quality))"

subsection \<open>Double precision\<close>

text \<open>
  A JavaScript number is an IEEE 754 double, and every arithmetic operation rounds its
  exact result to the nearest double, ties to the even mantissa. \<open>fl\<close> is that rounding
  for results in the normal range (no overflow to \<^verbatim>\<open>Infinity\<close>, no subnormal numbers):
  the magnitude is scaled by powers of two until it lies between \<open>2^52\<close> and \<open>2^53\<close>,
  rounded to an integer, and scaled back.
\<close>

definition roundTiesToEven :: "real \<Rightarrow> int" where
  "roundTiesToEven number =
     (let f = \<lfloor>number\<rfloor>; d = number - of_int f
      in if d < 0.5 then f else if 0.5 < d then f + 1 else if even f then f else f + 1)"

function scale_up :: "real \<Rightarrow> nat \<Rightarrow> real \<times> nat" where
  "scale_up m k = (if 0 < m \<and> m < 2 ^ 52 then scale_up (2 * m) (k + 1) else (m, k))"
  by pat_completeness auto
termination
proof (relation "measure (\<lambda>(m, k). nat \<lfloor>2 ^ 52 / m\<rfloor>)", goal_cases)
  case 1
  then show ?case by simp
next
  case (2 m k)
  then have m: "0 < m" "m < 2 ^ 52" by auto
  define r where "r = 2 ^ 52 / m"
  have r1: "1 \<le> r" using m by (simp add: r_def)
  have "\<lfloor>r / 2\<rfloor> < \<lfloor>r\<rfloor>"
  proof (cases "r < 2")
    case True
    then have "\<lfloor>r / 2\<rfloor> = 0" using r1 by (simp add: floor_eq_iff)
    moreover have "1 \<le> \<lfloor>r\<rfloor>" using r1 by (simp add: le_floor_iff)
    ultimately show ?thesis by simp
  next
    case False
    then have "r / 2 \<le> r - 1" by simp
    then have "\<lfloor>r / 2\<rfloor> \<le> \<lfloor>r - 1\<rfloor>" by (rule floor_mono)
    then show ?thesis by simp
  qed
  moreover have "0 < \<lfloor>r\<rfloor>" using r1 by (simp add: floor_less_iff le_floor_iff)
  moreover have "2 ^ 52 / (2 * m) = r / 2" by (simp add: r_def)
  ultimately show ?case unfolding r_def by simp
qed

function scale_down :: "real \<Rightarrow> nat \<Rightarrow> real \<times> nat" where
  "scale_down m k = (if 2 ^ 53 \<le> m then scale_down (m / 2) (k + 1) else (m, k))"
  by pat_completeness auto
termination
proof (relation "measure (\<lambda>(m, k). nat \<lfloor>m\<rfloor>)", goal_cases)
  case 1
  then show ?case by simp
next
  case (2 m k)
  then have m: "2 ^ 53 \<le> m" by auto
  then have "m / 2 \<le> m - 1" by simp
  then have "\<lfloor>m / 2\<rfloor> \<le> \<lfloor>m - 1\<rfloor>" by (rule floor_mono)
  moreover have "0 < \<lfloor>m\<rfloor>" using m by (simp add: floor_less_iff le_floor_iff)
  ultimately show ?case by simp
qed

declare scale_up.simps [simp del] scale_down.simps [simp del]

definition fl :: "real \<Rightarrow> real" where
  "fl v =
     (if v = 0 then 0
      else if \<bar>v\<bar> < 2 ^ 52
      then (case scale_up \<bar>v\<bar> 0 of (m, k) \<Rightarrow> sgn v * (of_int (roundTiesToEven m) / 2 ^ k))
      else (case scale_down \<bar>v\<bar> 0 of (m, k) \<Rightarrow> sgn v * (of_int (roundTiesToEven m) * 2 ^ k)))"

subsection \<open>The grayscale transform\<close>

text \<open>
  The pixel buffer \<^verbatim>\<open>imageData.data\<close> is a \<^verbatim>\<open>Uint8ClampedArray\<close>: a list of bytes, four
  per pixel. Reading past its end gives \<^verbatim>\<open>undefined\<close>, which arithmetic turns into
  \<^verbatim>\<open>NaN\<close> (here \<open>None\<close>); storing a number converts it to a byte (\<^verbatim>\<open>NaN\<close> to 0, the
  others clamped to 0..255 and rounded to the nearest integer, ties to the even one);
  storing past the end is ignored, as \<open>list_update\<close> does.
\<close>

definition toUint8Clamp :: "real option \<Rightarrow> 8 word" where
  "toUint8Clamp v =
     (case v of
        None \<Rightarrow> 0
      | Some number \<Rightarrow>
          if number \<le> 0 then 0
          else if 255 \<le> number then 255
          else word_of_int (roundTiesToEven number))"

definition byte_at :: "8 word list \<Rightarrow> nat \<Rightarrow> real option" where
  "byte_at data i = (if i < length data then Some (real (unat (data ! i))) else None)"

text \<open>
  The weighted sum \<^verbatim>\<open>data[i] * 0.299 + data[i + 1] * 0.587 + data[i + 2] * 0.114\<close> of
  lines 515 and 1043, in double precision: the three literals, the three products and the
  two sums, from left to right, are each rounded.
\<close>

definition weighted_sum :: "real \<Rightarrow> real \<Rightarrow> real \<Rightarrow> real" where
  "weighted_sum r g b = fl (fl (fl (r * fl 0.299) + fl (g * fl 0.587)) + fl (b * fl 0.114))"

definition luminance :: "8 word list \<Rightarrow> nat \<Rightarrow> real option" where
  "luminance data i =
     (case byte_at data i of
        None \<Rightarrow> None
      | Some r \<Rightarrow>
          (case byte_at data (i + 1) of
             None \<Rightarrow> None
           | Some g \<Rightarrow>
               (case byte_at data (i + 2) of
                  None \<Rightarrow> None
                | Some b \<Rightarrow> Some (weighted_sum r g b))))"

text \<open>
  The loop of \<^verbatim>\<open>grayscaleImage\<close> (lines 514 to 519 and 1041 to 1048, the same text):
  \<^verbatim>\<open>for (let i = 0; i < data.length; i += 4)\<close>.
\<close>

function grayscale_loop :: "nat \<Rightarrow> 8 word list \<Rightarrow> 8 word list" where
  "grayscale_loop i data =
     (if i < length data
      then (let avg = toUint8Clamp (luminance data i)
            in grayscale_loop (i + 4) (data[i := avg, i + 1 := avg, i + 2 := avg]))
      else data)"
  by pat_completeness auto
termination
  by (relation "measure (\<lambda>(i, data). length data - i)") auto

declare grayscale_loop.simps [simp del]

text \<open>
  The same transform written by recursion over the buffer, four bytes at a time; the
  proofs go through it. \<open>gray_value\<close> is the byte stored for a pixel whose three colour
  bytes are all there.
\<close>

definition gray_value :: "8 word \<Rightarrow> 8 word \<Rightarrow> 8 word \<Rightarrow> 8 word" where
  "gray_value r g b =
     toUint8Clamp (Some (weighted_sum (real (unat r)) (real (unat g)) (real (unat b))))"

fun grayscale_pixels :: "8 word list \<Rightarrow> 8 word list" where
  "grayscale_pixels (r # g # b # a # rest) =
     gray_value r g b # gray_value r g b # gray_value r g b # a # grayscale_pixels rest"
| "grayscale_pixels [r, g, b] = [gray_value r g b, gray_value r g b, gray_value r g b]"
| "grayscale_pixels [r, g] = [0, 0]"
| "grayscale_pixels [r] = [0]"
| "grayscale_pixels [] = []"

subsection \<open>Images and data URLs\<close>

text \<open>
  A decoded image, as far as the script reads it: its natural dimensions, and the pixels
  that \<^verbatim>\<open>getImageData\<close> returns once the image is drawn on the canvas. The browser's
  encoder \<^verbatim>\<open>canvas.toDataURL(type, quality)\<close> is not part of the repository: a data URL
  is represented by what was handed to the encoder.
\<close>

record image =
  naturalWidth :: nat
  naturalHeight :: nat
  pixels :: "8 word list"

record data_url =
  mime :: string
  encoderQuality :: real
  canvasWidth :: nat
  canvasHeight :: nat
  canvasData :: "8 word list"

definition grayscaleImage :: "image \<Rightarrow> data_url" where
  "grayscaleImage img =
     \<lparr>mime = ''image/jpeg'', encoderQuality = 0.9,
      canvasWidth = naturalWidth img, canvasHeight = naturalHeight img,
      canvasData = grayscale_loop 0 (pixels img)\<rparr>"

text \<open>\<^verbatim>\<open>compressAndConvertToBase64\<close>, earlier revision (lines 528 to 538): always JPEG.\<close>

definition compressAndConvertToBase64_v1 :: "image \<Rightarrow> string \<Rightarrow> real \<Rightarrow> data_url" where
  "compressAndConvertToBase64_v1 img mimeType quality =
     \<lparr>mime = ''image/jpeg'', encoderQuality = quality,
      canvasWidth = naturalWidth img, canvasHeight = naturalHeight img,
      canvasData = pixels img\<rparr>"

text \<open>
  \<^verbatim>\<open>compressAndConvertToBase64\<close>, later revision (lines 1054 to 1066): JPEG for a JPEG or
  WEBP source, PNG for every other source.
\<close>

definition compressAndConvertToBase64_v2 :: "image \<Rightarrow> string \<Rightarrow> real \<Rightarrow> data_url" where
  "compressAndConvertToBase64_v2 img mimeType quality =
     (let outputMimeType =
            (if str_includes mimeType ''jpeg'' \<or> str_includes mimeType ''webp''
             then ''image/jpeg'' else ''image/png'')
      in \<lparr>mime = outputMimeType, encoderQuality = quality,
          canvasWidth = naturalWidth img, canvasHeight = naturalHeight img,
          canvasData = pixels img\<rparr>)"

subsection \<open>Page layout\<close>

text \<open>
  Lines 611 to 621 and 1149 to 1160 (the same text) fit the image into the page. In the
  source the margin is the constant 10 and the page size is read from the document; here
  they are arguments. A division by zero gives \<^verbatim>\<open>Infinity\<close> or \<^verbatim>\<open>NaN\<close> in JavaScript,
  which the real numbers do not have: for an image with a zero dimension the model gives
  \<open>None\<close> and does not follow the computation further. A decoded bitmap has positive
  dimensions. The fields \<open>x_mm\<close> and \<open>y_mm\<close> are the source's \<^verbatim>\<open>x\<close> and \<^verbatim>\<open>y\<close>.
\<close>

record geometry =
  x_mm :: real
  y_mm :: real
  printWidth :: real
  printHeight :: real

definition layout :: "real \<Rightarrow> real \<Rightarrow> real \<Rightarrow> nat \<Rightarrow> nat \<Rightarrow> geometry option" where
  "layout margin pdfWidth pdfHeight imgWidth imgHeight =
     (if imgWidth = 0 \<or> imgHeight = 0 then None
      else
        (let imgRatio = real imgWidth / real imgHeight;
             w0 = pdfWidth - (2 * margin);
             h0 = w0 / imgRatio;
             h = (if h0 > pdfHeight - (2 * margin) then pdfHeight - (2 * margin) else h0);
             w = (if h0 > pdfHeight - (2 * margin) then h * imgRatio else w0)
         in Some \<lparr>x_mm = (pdfWidth - w) / 2, y_mm = (pdfHeight - h) / 2,
                  printWidth = w, printHeight = h\<rparr>))"

subsection \<open>The PDF document\<close>

text \<open>
  The library jsPDF is not part of the repository. Its document is modelled as the pages
  already finished and the current page, each page a list of placed images. The
  constructor \<^verbatim>\<open>new jsPDF('p', 'mm', 'a4')\<close> gives a document with one empty page of 210 by
  297 millimetres, the nominal A4 size; \<^verbatim>\<open>addPage\<close> starts a new page; \<^verbatim>\<open>addImage\<close>
  places an image on the current page.
\<close>

record placement =
  dataURL :: data_url
  format :: string
  geom :: "geometry option"

record jsPDF =
  pageWidth :: real
  pageHeight :: real
  finished :: "placement list list"
  current :: "placement list"

definition new_jsPDF :: jsPDF where
  "new_jsPDF = \<lparr>pageWidth = 210, pageHeight = 297, finished = [], current = []\<rparr>"

definition addPage :: "jsPDF \<Rightarrow> jsPDF" where
  "addPage doc = doc\<lparr>finished := finished doc @ [current doc], current := []\<rparr>"

definition addImage :: "placement \<Rightarrow> jsPDF \<Rightarrow> jsPDF" where
  "addImage p doc = doc\<lparr>current := current doc @ [p]\<rparr>"

definition pages :: "jsPDF \<Rightarrow> placement list list" where
  "pages doc = finished doc @ [current doc]"

subsection \<open>Assembling the PDF\<close>

text \<open>
  \<^verbatim>\<open>loadImage\<close> resolves with the decoded image or rejects; it is an argument of the
  model, \<open>None\<close> standing for the rejection, which ends \<^verbatim>\<open>processAndDownloadPDF\<close> with
  the error before anything is saved. The other error of the script is the alert of
  \<^verbatim>\<open>showNameModal\<close>.
\<close>

datatype error = NoImageSelected | FailedToLoadImage

definition margin :: real where
  "margin = 10"

text \<open>
  Earlier revision, lines 585 to 629. What one round of the loop hands to
  \<^verbatim>\<open>doc.addImage\<close> (lines 598 to 605 and 611 to 623), the loop itself with its flag
  \<^verbatim>\<open>firstPage\<close>, and the function, whose result is the saved file: its name and its pages.
\<close>

definition page_image_v1 ::
  "real \<Rightarrow> bool \<Rightarrow> real \<Rightarrow> real \<Rightarrow> pdf_file \<Rightarrow> image \<Rightarrow> placement" where
  "page_image_v1 quality applyGrayscale pdfWidth pdfHeight fileObj img =
     (let format = ''JPEG'';
          dataURL = (if applyGrayscale then grayscaleImage img
                     else compressAndConvertToBase64_v1 img (ftype fileObj) quality)
      in \<lparr>dataURL = dataURL, format = format,
          geom = layout margin pdfWidth pdfHeight (naturalWidth img) (naturalHeight img)\<rparr>)"

fun pdf_loop_v1 ::
  "(string \<Rightarrow> image option) \<Rightarrow> real \<Rightarrow> bool \<Rightarrow> real \<Rightarrow> real \<Rightarrow> pdf_file list
     \<Rightarrow> jsPDF \<Rightarrow> bool \<Rightarrow> error + jsPDF" where
  "pdf_loop_v1 loadImage quality applyGrayscale pdfWidth pdfHeight [] doc firstPage = Inr doc"
| "pdf_loop_v1 loadImage quality applyGrayscale pdfWidth pdfHeight (fileObj # rest) doc firstPage =
     (case loadImage (url fileObj) of
        None \<Rightarrow> Inl FailedToLoadImage
      | Some img \<Rightarrow>
          (let doc1 = (if \<not> firstPage then addPage doc else doc);
               doc2 = addImage (page_image_v1 quality applyGrayscale pdfWidth pdfHeight
                                  fileObj img) doc1
           in pdf_loop_v1 loadImage quality applyGrayscale pdfWidth pdfHeight rest doc2 False))"

definition processAndDownloadPDF_v1 ::
  "(string \<Rightarrow> image option) \<Rightarrow> real option \<Rightarrow> pdf_file list \<Rightarrow> string \<Rightarrow> bool
     \<Rightarrow> error + string \<times> placement list list" where
  "processAndDownloadPDF_v1 loadImage qualitySlider pdfFiles filename applyGrayscale =
     (let quality = (case qualitySlider of Some v \<Rightarrow> v / 100 | None \<Rightarrow> 0.8);
          doc = new_jsPDF;
          pdfWidth = pageWidth doc;
          pdfHeight = pageHeight doc
      in case pdf_loop_v1 loadImage quality applyGrayscale pdfWidth pdfHeight pdfFiles doc True of
           Inl e \<Rightarrow> Inl e
         | Inr doc' \<Rightarrow> Inr (filename @ ''.pdf'', pages doc'))"

text \<open>
  Later revision, lines 1108 to 1168: the same loop, with the format handed to
  \<^verbatim>\<open>doc.addImage\<close> chosen in lines 1128 to 1142.
\<close>

definition PDF_DEFAULT_QUALITY :: real where
  "PDF_DEFAULT_QUALITY = 0.95"

definition page_image_v2 ::
  "real \<Rightarrow> bool \<Rightarrow> real \<Rightarrow> real \<Rightarrow> pdf_file \<Rightarrow> image \<Rightarrow> placement" where
  "page_image_v2 quality applyGrayscale pdfWidth pdfHeight fileObj img =
     (let dataURL = (if applyGrayscale then grayscaleImage img
                     else compressAndConvertToBase64_v2 img (ftype fileObj) quality);
          format = (if applyGrayscale then ''JPEG''
                    else if str_includes (ftype fileObj) ''png'' \<and> quality = 1.0 then ''PNG''
                    else ''JPEG'')
      in \<lparr>dataURL = dataURL, format = format,
          geom = layout margin pdfWidth pdfHeight (naturalWidth img) (naturalHeight img)\<rparr>)"

fun pdf_loop_v2 ::
  "(string \<Rightarrow> image option) \<Rightarrow> real \<Rightarrow> bool \<Rightarrow> real \<Rightarrow> real \<Rightarrow> pdf_file list
     \<Rightarrow> jsPDF \<Rightarrow> bool \<Rightarrow> error + jsPDF" where
  "pdf_loop_v2 loadImage quality applyGrayscale pdfWidth pdfHeight [] doc firstPage = Inr doc"
| "pdf_loop_v2 loadImage quality applyGrayscale pdfWidth pdfHeight (fileObj # rest) doc firstPage =
     (case loadImage (url fileObj) of
        None \<Rightarrow> Inl FailedToLoadImage
      | Some img \<Rightarrow>
          (let doc1 = (if \<not> firstPage then addPage doc else doc);
               doc2 = addImage (page_image_v2 quality applyGrayscale pdfWidth pdfHeight
                                  fileObj img) doc1
           in pdf_loop_v2 loadImage quality applyGrayscale pdfWidth pdfHeight rest doc2 False))"

definition processAndDownloadPDF_v2 ::
  "(string \<Rightarrow> image option) \<Rightarrow> real option \<Rightarrow> pdf_file list \<Rightarrow> string \<Rightarrow> bool
     \<Rightarrow> error + string \<times> placement list list" where
  "processAndDownloadPDF_v2 loadImage pdfQualitySlider pdfFiles filename applyGrayscale =
     (let doc = new_jsPDF;
          pdfWidth = pageWidth doc;
          pdfHeight = pageHeight doc;
          quality = (case pdfQualitySlider of Some v \<Rightarrow> v / 100 | None \<Rightarrow> PDF_DEFAULT_QUALITY)
      in case pdf_loop_v2 loadImage quality applyGrayscale pdfWidth pdfHeight pdfFiles doc True of
           Inl e \<Rightarrow> Inl e
         | Inr doc' \<Rightarrow> Inr (filename @ ''.pdf'', pages doc'))"

text \<open>
  The page that the loop makes of one file of the list: the single image it places, for
  the quality that \<^verbatim>\<open>processAndDownloadPDF\<close> reads from the slider and the page size of
  the new document. The properties of the assembled document are stated with it.
\<close>

definition pdf_page_v1 ::
  "(string \<Rightarrow> image option) \<Rightarrow> real option \<Rightarrow> bool \<Rightarrow> pdf_file \<Rightarrow> placement list" where
  "pdf_page_v1 loadImage qualitySlider applyGrayscale fileObj =
     (case loadImage (url fileObj) of
        None \<Rightarrow> []
      | Some img \<Rightarrow>
          [page_image_v1 (case qualitySlider of Some v \<Rightarrow> v / 100 | None \<Rightarrow> 0.8)
             applyGrayscale (pageWidth new_jsPDF) (pageHeight new_jsPDF) fileObj img])"

definition pdf_page_v2 ::
  "(string \<Rightarrow> image option) \<Rightarrow> real option \<Rightarrow> bool \<Rightarrow> pdf_file \<Rightarrow> placement list" where
  "pdf_page_v2 loadImage pdfQualitySlider applyGrayscale fileObj =
     (case loadImage (url fileObj) of
        None \<Rightarrow> []
      | Some img \<Rightarrow>
          [page_image_v2
             (case pdfQualitySlider of Some v \<Rightarrow> v / 100 | None \<Rightarrow> PDF_DEFAULT_QUALITY)
             applyGrayscale (pageWidth new_jsPDF) (pageHeight new_jsPDF) fileObj img])"

text \<open>\<^verbatim>\<open>removeFile\<close> (lines 314 to 318 and 840 to 843): the new value of \<^verbatim>\<open>pdfFiles\<close>.\<close>

definition removeFile :: "string \<Rightarrow> pdf_file list \<Rightarrow> pdf_file list" where
  "removeFile i pdfFiles = filter (\<lambda>f. fid f \<noteq> i) pdfFiles"

text \<open>
  \<^verbatim>\<open>showNameModal\<close> (lines 425 to 439 and 960 to 975, the same text) opens the dialog
  whose confirm button starts \<^verbatim>\<open>processAndDownloadPDF\<close>. With an empty list it alerts
  the user and returns; otherwise it stores the mode, proposes a file name and shows the
  dialog.
\<close>

record dialog =
  isGrayscalePdfMode :: bool
  pdf_filename :: string
  nameModalShown :: bool

definition showNameModal :: "bool \<Rightarrow> pdf_file list \<Rightarrow> dialog \<Rightarrow> error + dialog" where
  "showNameModal isGrayscale pdfFiles d =
     (if length pdfFiles = 0 then Inl NoImageSelected
      else Inr \<lparr>isGrayscalePdfMode = isGrayscale,
                pdf_filename = (if isGrayscale then ''Grayscale_PDF_Export''
                                else ''ImageToolkit_PDF_Export''),
                nameModalShown = True\<rparr>)"

subsection \<open>The batch estimators in double precision\<close>

text \<open>
  The two batch estimates again, every literal and every operation rounded. The slider's
  value and the file sizes are integers, which are doubles as they are.
\<close>

definition reductionFactor_f64 :: "real \<Rightarrow> real" where
  "reductionFactor_f64 quality =
     (let qualityRatio = fl (quality / 100);
          maxCompressionFactor = fl 0.9;
          reductionFactor = fl (1 - fl (maxCompressionFactor * fl (1 - qualityRatio)))
      in if reductionFactor < fl 0.1 then fl 0.1 else reductionFactor)"

definition estimatedBytes_pdf_v1_f64 :: "pdf_file list \<Rightarrow> real \<Rightarrow> real" where
  "estimatedBytes_pdf_v1_f64 pdfFiles quality =
     (let totalOriginalSize = foldl (\<lambda>total file. fl (total + real (fsize file))) 0 pdfFiles
      in fl (totalOriginalSize * reductionFactor_f64 quality))"

definition estimatedBytes_pdf_v2_f64 :: "pdf_file list \<Rightarrow> real \<Rightarrow> real" where
  "estimatedBytes_pdf_v2_f64 pdfFiles quality =
     (let reductionFactor = reductionFactor_f64 quality
      in foldl (\<lambda>estimatedBytes file.
                  if str_includes (ftype file) ''png''
                  then fl (estimatedBytes
                           + max (fl (real (fsize file) * fl 0.8))
                                 (fl (real (fsize file) * reductionFactor)))
                  else fl (estimatedBytes + fl (real (fsize file) * reductionFactor)))
           0 pdfFiles)"

subsection \<open>A working set for the examples\<close>

text \<open>
  Three JPEG files of 1,000,000, 2,000,000 and 500,000 bytes, one PNG file, and a loader
  that decodes every URL to the same image of two pixels by one.
\<close>

definition jpeg_file :: "string \<Rightarrow> nat \<Rightarrow> pdf_file" where
  "jpeg_file i n =
     \<lparr>ftype = ''image/jpeg'', url = ''data:image/jpeg;base64,'' @ i, name = i @ ''.jpg'',
      fsize = n, fid = i\<rparr>"

definition png_file :: "string \<Rightarrow> nat \<Rightarrow> pdf_file" where
  "png_file i n =
     \<lparr>ftype = ''image/png'', url = ''data:image/png;base64,'' @ i, name = i @ ''.png'',
      fsize = n, fid = i\<rparr>"

definition three_jpegs :: "pdf_file list" where
  "three_jpegs = [jpeg_file ''a'' 1000000, jpeg_file ''b'' 2000000, jpeg_file ''c'' 500000]"

definition two_pixels :: image where
  "two_pixels = \<lparr>naturalWidth = 2, naturalHeight = 1, pixels = [255, 0, 0, 255, 10, 20, 30, 40]\<rparr>"

definition load_two_pixels :: "string \<Rightarrow> image option" where
  "load_two_pixels u = Some two_pixels"

section \<open>Properties of the size estimate\<close>

lemma reductionFactor_lower: "0.1 \<le> reductionFactor quality"
  by (simp add: reductionFactor_def Let_def)

lemma reductionFactor_upper: "quality \<le> 100 \<Longrightarrow> reductionFactor quality \<le> 1"
  by (simp add: reductionFactor_def Let_def)

lemma reductionFactor_above: "100 < quality \<Longrightarrow> 1 < reductionFactor quality"
  by (simp add: reductionFactor_def Let_def)

lemma reductionFactor_clamped: "quality \<le> 0 \<Longrightarrow> reductionFactor quality = 0.1"
  by (simp add: reductionFactor_def Let_def)

lemma png_type_includes_png: "str_includes ''image/png'' ''png''"
  by simp

lemma jpeg_type_excludes_png: "\<not> str_includes ''image/jpeg'' ''png''"
  by simp

lemma scaled_lower: "0.1 * real n \<le> real n * reductionFactor quality"
  using mult_left_mono [OF reductionFactor_lower [of quality], of "real n"]
  by (simp add: mult.commute)

lemma scaled_upper: "quality \<le> 100 \<Longrightarrow> real n * reductionFactor quality \<le> real n"
  using mult_left_mono [OF reductionFactor_upper [of quality], of "real n"]
  by simp

lemma scaled_above: "100 < quality \<Longrightarrow> 0 < n \<Longrightarrow> real n < real n * reductionFactor quality"
  using reductionFactor_above [of quality] by simp

lemma estimatedBytes_v1_lower: "0.1 * real (fsize f) \<le> estimatedBytes_v1 f quality"
proof -
  have "real (fsize f) * reductionFactor quality \<le> estimatedBytes_v1 f quality"
    by (simp add: estimatedBytes_v1_def Let_def)
  then show ?thesis
    using scaled_lower [of "fsize f" quality] by linarith
qed

lemma estimatedBytes_v2_lower: "0.1 * real (fsize f) \<le> estimatedBytes_v2 f quality"
proof -
  have "real (fsize f) * reductionFactor quality \<le> estimatedBytes_v2 f quality"
    by (simp add: estimatedBytes_v2_def Let_def)
  then show ?thesis
    using scaled_lower [of "fsize f" quality] by linarith
qed

text \<open>
  Claim C1, as amended. For a file that is not a PNG and a quality between 1 and 100,
  both revisions of \<^verbatim>\<open>updateCompressionSize\<close> show the estimate
  \<open>size * reductionFactor\<close> when the file is not empty, and this estimate lies between a
  tenth of the original size and the original size; for a file of 0 bytes they return
  before the formula and show no estimate.
\<close>

theorem shown_estimate_within_tenth_and_original:
  assumes "1 \<le> quality" and "quality \<le> 100"
    and "\<not> str_includes (ftype f) ''png''"
  shows "updateCompressionSize_v1 (Some f) quality
           = (if fsize f = 0 then None else Some (real (fsize f) * reductionFactor quality))
       \<and> updateCompressionSize_v2 (Some f) quality
           = (if fsize f = 0 then None else Some (real (fsize f) * reductionFactor quality))
       \<and> 0.1 * real (fsize f) \<le> real (fsize f) * reductionFactor quality
       \<and> real (fsize f) * reductionFactor quality \<le> real (fsize f)"
proof -
  have notpng: "ftype f \<noteq> ''image/png''"
    using assms(3) png_type_includes_png by auto
  have v1: "estimatedBytes_v1 f quality = real (fsize f) * reductionFactor quality"
    using assms(3) by (simp add: estimatedBytes_v1_def)
  have v2: "estimatedBytes_v2 f quality = real (fsize f) * reductionFactor quality"
    using notpng by (simp add: estimatedBytes_v2_def)
  show ?thesis
    using scaled_lower [of "fsize f" quality] scaled_upper [OF assms(2), of "fsize f"]
    by (simp add: updateCompressionSize_v1_def updateCompressionSize_v2_def v1 v2)
qed

theorem shown_estimate_within_tenth_and_original_witness:
  "(1::real) \<le> 50 \<and> (50::real) \<le> 100
   \<and> \<not> str_includes (ftype (single_file.truncate (jpeg_file ''a'' 1000))) ''png''
   \<and> updateCompressionSize_v1 (Some (single_file.truncate (jpeg_file ''a'' 1000))) 50 = Some 550
   \<and> updateCompressionSize_v2 (Some (single_file.truncate (jpeg_file ''a'' 1000))) 50 = Some 550
   \<and> 0.1 * real (fsize (single_file.truncate (jpeg_file ''a'' 1000))) \<le> (550::real)
   \<and> (550::real) \<le> real (fsize (single_file.truncate (jpeg_file ''a'' 1000)))"
proof -
  let ?f = "single_file.truncate (jpeg_file ''a'' 1000)"
  have np: "\<not> str_includes (ftype ?f) ''png''"
    by (simp add: jpeg_file_def single_file.truncate_def)
  have sz: "fsize ?f = 1000"
    by (simp add: jpeg_file_def single_file.truncate_def)
  have rf: "reductionFactor 50 = 0.55"
    by (simp add: reductionFactor_def)
  show ?thesis
    using shown_estimate_within_tenth_and_original [of 50 ?f] np
    unfolding sz rf by simp
qed

text \<open>
  The claim as it was stated gives the estimate 0 for a file of 0 bytes; the function
  shows none.
\<close>

theorem file_of_0_bytes_gets_no_estimate:
  "updateCompressionSize_v1 (Some (single_file.truncate (jpeg_file ''a'' 0))) 50 = None
   \<and> updateCompressionSize_v2 (Some (single_file.truncate (jpeg_file ''a'' 0))) 50 = None
   \<and> updateCompressionSize_v1 (Some (single_file.truncate (jpeg_file ''a'' 0))) 50 \<noteq> Some 0"
  by (simp add: updateCompressionSize_v1_def updateCompressionSize_v2_def jpeg_file_def
      single_file.truncate_def)

subsection \<open>The batch estimate\<close>

lemma foldl_add_real: "foldl (\<lambda>acc f. acc + t f) (a::real) fs = a + sum_list (map t fs)"
  by (induction fs arbitrary: a) simp_all

lemma foldl_add_nat: "foldl (\<lambda>acc f. acc + t f) (a::nat) fs = a + sum_list (map t fs)"
  by (induction fs arbitrary: a) simp_all

lemma getTotalPdfOriginalSize_sum:
  "getTotalPdfOriginalSize files = sum_list (map fsize files)"
  by (simp add: getTotalPdfOriginalSize_def foldl_add_nat)

lemma estimatedBytes_pdf_v2_sum:
  "estimatedBytes_pdf_v2 files quality =
     sum_list (map (\<lambda>f. if str_includes (ftype f) ''png''
                         then max (real (fsize f) * 0.8) (real (fsize f) * reductionFactor quality)
                         else real (fsize f) * reductionFactor quality) files)"
proof -
  have "estimatedBytes_pdf_v2 files quality =
      foldl (\<lambda>acc f. acc + (if str_includes (ftype f) ''png''
                         then max (real (fsize f) * 0.8) (real (fsize f) * reductionFactor quality)
                         else real (fsize f) * reductionFactor quality)) 0 files"
    unfolding estimatedBytes_pdf_v2_def Let_def
    by (rule arg_cong [where f = "\<lambda>step. foldl step 0 files"]) (auto simp: fun_eq_iff)
  then show ?thesis by (simp add: foldl_add_real)
qed

lemma sum_list_split_filter:
  "sum_list (map (\<lambda>f. if P f then (a f::real) else b f) fs)
     = sum_list (map b (filter (\<lambda>f. \<not> P f) fs)) + sum_list (map a (filter P fs))"
  by (induction fs) simp_all

text \<open>
  The term that the later revision's loop adds for a file is the estimate of the earlier
  revision's \<^verbatim>\<open>updateCompressionSize\<close> for that file; it is the estimate of the later
  revision's, which tests for the type \<^verbatim>\<open>image/png\<close> itself, unless the type contains
  \<^verbatim>\<open>png\<close> without being \<^verbatim>\<open>image/png\<close>.
\<close>

lemma file_term_is_estimate_v1:
  "(if str_includes (ftype f) ''png''
    then max (real (fsize f) * 0.8) (real (fsize f) * reductionFactor quality)
    else real (fsize f) * reductionFactor quality) = estimatedBytes_v1 f quality"
  by (simp add: estimatedBytes_v1_def Let_def)

lemma file_term_is_estimate_v2:
  assumes "ftype f = ''image/png'' \<or> \<not> str_includes (ftype f) ''png''"
  shows "(if str_includes (ftype f) ''png''
    then max (real (fsize f) * 0.8) (real (fsize f) * reductionFactor quality)
    else real (fsize f) * reductionFactor quality) = estimatedBytes_v2 f quality"
  using assms png_type_includes_png by (auto simp: estimatedBytes_v2_def Let_def)

lemma x_png_example:
  "estimatedBytes_v2 (png_file ''p'' 1000\<lparr>ftype := ''image/x-png''\<rparr>) 10 = 190
   \<and> updatePdfSizeInfo (Some 10) [png_file ''p'' 1000\<lparr>ftype := ''image/x-png''\<rparr>] = Some 800"
  by (simp add: estimatedBytes_v2_def updatePdfSizeInfo_def estimatedBytes_pdf_v2_def png_file_def
      reductionFactor_def)

text \<open>
  Claim C6, as amended. In the later revision, the total that \<^verbatim>\<open>updatePdfSizeInfo\<close>
  shows for a batch that is not empty is the sum of the files' own estimates, each file
  tested on its own: a file whose type does not contain \<^verbatim>\<open>png\<close> contributes
  \<open>size * reductionFactor\<close>, a file whose type contains \<^verbatim>\<open>png\<close> the larger of that and
  \<open>0.8 * size\<close>. For the empty batch no total is shown.
\<close>

theorem later_batch_total_is_sum_of_file_estimates:
  "updatePdfSizeInfo (Some quality) files
     = (if files = [] then None
        else Some (sum_list (map (\<lambda>f. if str_includes (ftype f) ''png''
                     then max (real (fsize f) * 0.8) (real (fsize f) * reductionFactor quality)
                     else real (fsize f) * reductionFactor quality) files)))
   \<and> sum_list (map (\<lambda>f. if str_includes (ftype f) ''png''
                     then max (real (fsize f) * 0.8) (real (fsize f) * reductionFactor quality)
                     else real (fsize f) * reductionFactor quality) files)
     = sum_list (map (\<lambda>f. real (fsize f) * reductionFactor quality)
                   (filter (\<lambda>f. \<not> str_includes (ftype f) ''png'') files))
       + sum_list (map (\<lambda>f. max (real (fsize f) * 0.8) (real (fsize f) * reductionFactor quality))
                     (filter (\<lambda>f. str_includes (ftype f) ''png'') files))"
  by (simp add: updatePdfSizeInfo_def estimatedBytes_pdf_v2_sum sum_list_split_filter)

text \<open>
  The claim as it was stated fails for the earlier revision, whose
  \<^verbatim>\<open>updatePdfCompressionSize\<close> applies the reduction factor to the summed sizes and has
  no PNG test: for one PNG file of 4,000,000 bytes at a quality of 10 it shows 760,000,
  where the file's own estimate is 3,200,000. It also fails for the empty batch, for which
  the later revision shows no total.
\<close>

theorem earlier_batch_estimate_has_no_png_floor:
  "updatePdfCompressionSize [png_file ''p'' 4000000] 10 = Some 760000
   \<and> estimatedBytes_v1 (png_file ''p'' 4000000) 10 = 3200000
   \<and> updatePdfSizeInfo (Some 10) [png_file ''p'' 4000000] = Some 3200000
   \<and> updatePdfSizeInfo (Some 10) [] = None"
  by (simp add: updatePdfCompressionSize_def estimatedBytes_pdf_v1_def getTotalPdfOriginalSize_def
      estimatedBytes_v1_def updatePdfSizeInfo_def estimatedBytes_pdf_v2_def png_file_def
      reductionFactor_def)

lemma mixed_batch_example:
  "estimatedBytes_pdf_v2 [jpeg_file ''a'' 1000000, png_file ''p'' 4000000] 10 = 3390000"
  by (simp add: estimatedBytes_pdf_v2_def jpeg_file_def png_file_def reductionFactor_def)

text \<open>
  What the two batch functions show: both show their estimate when the sizes do not add
  up to 0; for a list of empty files the earlier revision shows none, the later one 0.
\<close>

lemma batch_of_empty_file_example:
  "updatePdfCompressionSize [jpeg_file ''z'' 0] 50 = None
   \<and> updatePdfSizeInfo (Some 50) [jpeg_file ''z'' 0] = Some 0"
  by (simp add: updatePdfCompressionSize_def updatePdfSizeInfo_def getTotalPdfOriginalSize_def
      estimatedBytes_pdf_v2_def jpeg_file_def)

lemma batch_estimates_shown:
  "0 < getTotalPdfOriginalSize files \<Longrightarrow>
     updatePdfCompressionSize files quality = Some (estimatedBytes_pdf_v1 files quality)
     \<and> updatePdfSizeInfo (Some quality) files = Some (estimatedBytes_pdf_v2 files quality)"
  by (auto simp: updatePdfCompressionSize_def updatePdfSizeInfo_def getTotalPdfOriginalSize_def)

text \<open>
  Claim C8, as amended. A quality outside 1..100 is not rejected: for a file that is not
  empty both revisions of \<^verbatim>\<open>updateCompressionSize\<close> still show an estimate, and so does
  \<^verbatim>\<open>updatePdfCompressionSize\<close> for a batch that is not empty. The estimate is never
  below a tenth of the original size, it is exactly a tenth for a quality of 0 or less
  (unless the file is a PNG), and it exceeds the original size for a quality above 100.
\<close>

theorem estimate_outside_quality_range:
  assumes "quality < 1 \<or> 100 < quality" and "0 < fsize f"
    and "0 < getTotalPdfOriginalSize files"
  shows "updateCompressionSize_v1 (Some f) quality = Some (estimatedBytes_v1 f quality)
       \<and> updateCompressionSize_v2 (Some f) quality = Some (estimatedBytes_v2 f quality)
       \<and> updatePdfCompressionSize files quality = Some (estimatedBytes_pdf_v1 files quality)
       \<and> 0.1 * real (fsize f) \<le> estimatedBytes_v1 f quality
       \<and> 0.1 * real (fsize f) \<le> estimatedBytes_v2 f quality
       \<and> 0.1 * real (getTotalPdfOriginalSize files) \<le> estimatedBytes_pdf_v1 files quality
       \<and> (quality \<le> 0 \<and> \<not> str_includes (ftype f) ''png''
            \<longrightarrow> estimatedBytes_v1 f quality = 0.1 * real (fsize f)
              \<and> estimatedBytes_v2 f quality = 0.1 * real (fsize f))
       \<and> (100 < quality
            \<longrightarrow> real (fsize f) < estimatedBytes_v1 f quality
              \<and> real (fsize f) < estimatedBytes_v2 f quality
              \<and> real (getTotalPdfOriginalSize files) < estimatedBytes_pdf_v1 files quality)"
proof -
  have shown: "updateCompressionSize_v1 (Some f) quality = Some (estimatedBytes_v1 f quality)"
    "updateCompressionSize_v2 (Some f) quality = Some (estimatedBytes_v2 f quality)"
    "updatePdfCompressionSize files quality = Some (estimatedBytes_pdf_v1 files quality)"
    using assms(2,3)
    by (simp_all add: updateCompressionSize_v1_def updateCompressionSize_v2_def
        updatePdfCompressionSize_def)
  have lower: "0.1 * real (getTotalPdfOriginalSize files) \<le> estimatedBytes_pdf_v1 files quality"
    using scaled_lower [of "getTotalPdfOriginalSize files" quality]
    by (simp add: estimatedBytes_pdf_v1_def)
  have clamped: "estimatedBytes_v1 f quality = 0.1 * real (fsize f)
       \<and> estimatedBytes_v2 f quality = 0.1 * real (fsize f)"
    if "quality \<le> 0" and np: "\<not> str_includes (ftype f) ''png''"
  proof -
    have "ftype f \<noteq> ''image/png''" using np png_type_includes_png by auto
    then show ?thesis
      using np reductionFactor_clamped [OF that(1)]
      by (simp add: estimatedBytes_v1_def estimatedBytes_v2_def)
  qed
  have above: "real (fsize f) < estimatedBytes_v1 f quality
       \<and> real (fsize f) < estimatedBytes_v2 f quality
       \<and> real (getTotalPdfOriginalSize files) < estimatedBytes_pdf_v1 files quality"
    if "100 < quality"
    using scaled_above [OF that assms(2)] scaled_above [OF that assms(3)]
    by (simp add: estimatedBytes_v1_def estimatedBytes_v2_def estimatedBytes_pdf_v1_def Let_def
        max_def)
  show ?thesis
    using shown lower clamped above estimatedBytes_v1_lower [of f quality]
      estimatedBytes_v2_lower [of f quality]
    by blast
qed

theorem estimate_outside_quality_range_witness:
  "((0::real) < 1 \<or> (100::real) < 0) \<and> ((150::real) < 1 \<or> (100::real) < 150)
   \<and> 0 < fsize (single_file.truncate (jpeg_file ''a'' 1000))
   \<and> \<not> str_includes (ftype (single_file.truncate (jpeg_file ''a'' 1000))) ''png''
   \<and> 0 < getTotalPdfOriginalSize three_jpegs
   \<and> updateCompressionSize_v1 (Some (single_file.truncate (jpeg_file ''a'' 1000))) 0 = Some 100
   \<and> updateCompressionSize_v2 (Some (single_file.truncate (jpeg_file ''a'' 1000))) 0 = Some 100
   \<and> updatePdfCompressionSize three_jpegs 0 = Some 350000
   \<and> real (fsize (single_file.truncate (jpeg_file ''a'' 1000)))
       < estimatedBytes_v1 (single_file.truncate (jpeg_file ''a'' 1000)) 150
   \<and> real (getTotalPdfOriginalSize three_jpegs) < estimatedBytes_pdf_v1 three_jpegs 150"
proof -
  let ?f = "single_file.truncate (jpeg_file ''a'' 1000)"
  have f: "0 < fsize ?f" "\<not> str_includes (ftype ?f) ''png''"
    by (simp_all add: jpeg_file_def single_file.truncate_def)
  have t: "getTotalPdfOriginalSize three_jpegs = 3500000"
    by (simp add: getTotalPdfOriginalSize_def three_jpegs_def jpeg_file_def)
  have v: "estimatedBytes_v1 ?f 0 = 100" "estimatedBytes_v2 ?f 0 = 100"
    "estimatedBytes_pdf_v1 three_jpegs 0 = 350000"
    by (simp_all add: estimatedBytes_v1_def estimatedBytes_v2_def estimatedBytes_pdf_v1_def t
        jpeg_file_def single_file.truncate_def reductionFactor_def)
  have low: "updateCompressionSize_v1 (Some ?f) 0 = Some 100"
    "updateCompressionSize_v2 (Some ?f) 0 = Some 100"
    "updatePdfCompressionSize three_jpegs 0 = Some 350000"
    using estimate_outside_quality_range [of 0 ?f three_jpegs] f t v by simp_all
  have high: "real (fsize ?f) < estimatedBytes_v1 ?f 150"
    "real (getTotalPdfOriginalSize three_jpegs) < estimatedBytes_pdf_v1 three_jpegs 150"
    using estimate_outside_quality_range [of 150 ?f three_jpegs] f t by simp_all
  show ?thesis
    using f t low high by simp
qed

text \<open>
  The claim as it was stated fails: at a quality of 150 the estimators return a size,
  one and a half times the original and more.
\<close>

theorem quality_150_is_estimated:
  "updateCompressionSize_v1 (Some (single_file.truncate (jpeg_file ''a'' 1000))) 150 = Some 1450
   \<and> updateCompressionSize_v2 (Some (single_file.truncate (jpeg_file ''a'' 1000))) 150 = Some 1450
   \<and> updatePdfCompressionSize [jpeg_file ''a'' 1000] 150 = Some 1450"
  by (simp add: updateCompressionSize_v1_def updateCompressionSize_v2_def
      updatePdfCompressionSize_def estimatedBytes_v1_def estimatedBytes_v2_def
      estimatedBytes_pdf_v1_def getTotalPdfOriginalSize_def jpeg_file_def
      single_file.truncate_def reductionFactor_def)

text \<open>
  Without PNG files the two formulas agree in exact arithmetic: the reduction factor
  applied to the summed sizes is the sum of the files' reduced sizes.
\<close>

lemma estimatedBytes_pdf_agree:
  assumes "\<forall>f \<in> set files. \<not> str_includes (ftype f) ''png''"
  shows "estimatedBytes_pdf_v1 files quality = estimatedBytes_pdf_v2 files quality"
proof -
  have "estimatedBytes_pdf_v2 files quality
          = sum_list (map (\<lambda>f. real (fsize f) * reductionFactor quality) files)"
    unfolding estimatedBytes_pdf_v2_sum using assms
    by (intro arg_cong [where f = sum_list] map_cong) auto
  also have "\<dots> = real (sum_list (map fsize files)) * reductionFactor quality"
    by (induction files) (simp_all add: algebra_simps)
  finally show ?thesis
    by (simp add: estimatedBytes_pdf_v1_def getTotalPdfOriginalSize_sum)
qed

text \<open>
  Claim C10, as amended. For a batch without PNG files whose sizes do not add up to 0,
  the totals that the two revisions' batch estimators show are equal in exact arithmetic.
\<close>

theorem batch_revisions_show_equal_totals_in_exact_arithmetic:
  assumes "\<forall>f \<in> set files. \<not> str_includes (ftype f) ''png''"
    and "0 < getTotalPdfOriginalSize files"
  shows "updatePdfCompressionSize files quality = updatePdfSizeInfo (Some quality) files
       \<and> updatePdfSizeInfo (Some quality) files
           = Some (real (getTotalPdfOriginalSize files) * reductionFactor quality)"
proof -
  have ne: "files \<noteq> []"
    using assms(2) by (auto simp: getTotalPdfOriginalSize_def)
  have eq: "estimatedBytes_pdf_v1 files quality = estimatedBytes_pdf_v2 files quality"
    by (rule estimatedBytes_pdf_agree [OF assms(1)])
  show ?thesis
    using assms(2) ne eq
    by (simp add: updatePdfCompressionSize_def updatePdfSizeInfo_def estimatedBytes_pdf_v1_def)
qed

theorem batch_revisions_show_equal_totals_in_exact_arithmetic_witness:
  "list_all (\<lambda>f. \<not> str_includes (ftype f) ''png'') three_jpegs
   \<and> 0 < getTotalPdfOriginalSize three_jpegs
   \<and> updatePdfCompressionSize three_jpegs 50 = updatePdfSizeInfo (Some 50) three_jpegs
   \<and> updatePdfSizeInfo (Some 50) three_jpegs = Some 1925000"
proof -
  have np: "\<forall>f \<in> set three_jpegs. \<not> str_includes (ftype f) ''png''"
    by (simp add: three_jpegs_def jpeg_file_def)
  have t: "getTotalPdfOriginalSize three_jpegs = 3500000"
    by (simp add: getTotalPdfOriginalSize_def three_jpegs_def jpeg_file_def)
  have rf: "reductionFactor 50 = 0.55"
    by (simp add: reductionFactor_def)
  have pos: "0 < getTotalPdfOriginalSize three_jpegs"
    by (simp add: t)
  show ?thesis
    using batch_revisions_show_equal_totals_in_exact_arithmetic [OF np pos, of 50] np
    unfolding t rf by (simp add: list_all_iff)
qed

subsection \<open>The batch estimate in double precision\<close>

lemma fl_one_tenth: "fl 0.1 = 3602879701896397 / 2 ^ 55"
  by (simp add: fl_def scale_up.simps roundTiesToEven_def)

lemma fl_nine_tenths: "fl 0.9 = 8106479329266893 / 2 ^ 53"
  by (simp add: fl_def scale_up.simps roundTiesToEven_def)

lemma reductionFactor_f64_50: "reductionFactor_f64 50 = 2476979795053773 / 2 ^ 52"
  by (simp add: reductionFactor_f64_def fl_def scale_up.simps roundTiesToEven_def)

text \<open>
  The claim as it was stated, that the two totals are exactly equal for every batch, fails
  in the arithmetic of the script: for the three JPEG files at a quality of 50 the earlier
  revision computes \<^verbatim>\<open>1925000.0000000002\<close> and the later one \<^verbatim>\<open>1925000\<close>. It fails in
  the guards too: for one empty JPEG file the earlier revision shows no estimate and the
  later one shows 0.
\<close>

theorem batch_revisions_differ_in_double_precision:
  "\<not> str_includes ''image/jpeg'' ''png''
   \<and> estimatedBytes_pdf_v1_f64 three_jpegs 50 = 1925000 + 1 / 2 ^ 32
   \<and> estimatedBytes_pdf_v2_f64 three_jpegs 50 = 1925000
   \<and> estimatedBytes_pdf_v1_f64 three_jpegs 50 \<noteq> estimatedBytes_pdf_v2_f64 three_jpegs 50
   \<and> updatePdfCompressionSize [jpeg_file ''z'' 0] 50 = None
   \<and> updatePdfSizeInfo (Some 50) [jpeg_file ''z'' 0] = Some 0"
proof -
  have v1: "estimatedBytes_pdf_v1_f64 three_jpegs 50 = 1925000 + 1 / 2 ^ 32"
    by (simp add: estimatedBytes_pdf_v1_f64_def reductionFactor_f64_50 three_jpegs_def
        jpeg_file_def fl_def scale_up.simps scale_down.simps roundTiesToEven_def)
  have v2: "estimatedBytes_pdf_v2_f64 three_jpegs 50 = 1925000"
    by (simp add: estimatedBytes_pdf_v2_f64_def reductionFactor_f64_50 three_jpegs_def
        jpeg_file_def fl_def scale_up.simps scale_down.simps roundTiesToEven_def)
  have guards: "updatePdfCompressionSize [jpeg_file ''z'' 0] 50 = None"
    "updatePdfSizeInfo (Some 50) [jpeg_file ''z'' 0] = Some 0"
    by (simp_all add: updatePdfCompressionSize_def updatePdfSizeInfo_def
        getTotalPdfOriginalSize_def estimatedBytes_pdf_v2_def jpeg_file_def)
  show ?thesis unfolding v1 v2 guards by simp
qed

section \<open>The grayscale transform is idempotent\<close>

subsection \<open>The rounding error of one operation\<close>

lemma scale_up_spec:
  assumes "0 < m" and "m < 2 ^ 52"
  shows "\<exists>j. scale_up m k = (m * 2 ^ j, k + j) \<and> 2 ^ 52 \<le> m * 2 ^ j \<and> m * 2 ^ j < 2 ^ 53"
  using assms
proof (induction m k rule: scale_up.induct)
  case (1 m k)
  show ?case
  proof (cases "2 * m < 2 ^ 52")
    case True
    with "1.IH" "1.prems" obtain j where
      j: "scale_up (2 * m) (k + 1) = (2 * m * 2 ^ j, k + 1 + j)"
      "2 ^ 52 \<le> 2 * m * 2 ^ j" "2 * m * 2 ^ j < 2 ^ 53"
      by auto
    have "scale_up m k = scale_up (2 * m) (k + 1)"
      using "1.prems" by (subst scale_up.simps) simp
    then show ?thesis
      using j by (intro exI [of _ "Suc j"]) (simp add: mult.assoc)
  next
    case False
    have "scale_up m k = scale_up (2 * m) (k + 1)"
      using "1.prems" by (subst scale_up.simps) simp
    also have "\<dots> = (2 * m, k + 1)"
      using False by (subst scale_up.simps) simp
    finally show ?thesis
      using False "1.prems" by (intro exI [of _ 1]) simp
  qed
qed

lemma roundTiesToEven_near:
  "\<bar>real_of_int (roundTiesToEven x) - x\<bar> \<le> 1 / 2"
  unfolding roundTiesToEven_def Let_def
  by (auto simp: abs_le_iff)

lemma fl_relative_error:
  assumes "0 \<le> v" and "v < 2 ^ 52"
  shows "v * (1 - 1 / 2 ^ 53) \<le> fl v \<and> fl v \<le> v * (1 + 1 / 2 ^ 53)"
proof (cases "v = 0")
  case True
  then show ?thesis by (simp add: fl_def)
next
  case False
  then have pos: "0 < v" using assms by simp
  from scale_up_spec [OF pos assms(2), of 0] obtain j where
    j: "scale_up v 0 = (v * 2 ^ j, j)" "2 ^ 52 \<le> v * 2 ^ j" "v * 2 ^ j < 2 ^ 53"
    by auto
  define m where "m = v * 2 ^ j"
  define n where "n = real_of_int (roundTiesToEven m)"
  have flv: "fl v = n / 2 ^ j"
    using pos assms(2) j(1) by (simp add: fl_def m_def n_def)
  have near: "\<bar>n - m\<bar> \<le> 1 / 2"
    unfolding n_def by (rule roundTiesToEven_near)
  have half: "1 / 2 \<le> m / 2 ^ 53"
    using j(2) by (simp add: m_def)
  have "m - m / 2 ^ 53 \<le> n" "n \<le> m + m / 2 ^ 53"
    using near half by linarith+
  then have lo: "m * (1 - 1 / 2 ^ 53) \<le> n" and hi: "n \<le> m * (1 + 1 / 2 ^ 53)"
    by (simp_all add: algebra_simps)
  have lo': "m * (1 - 1 / 2 ^ 53) / 2 ^ j \<le> n / 2 ^ j"
    by (rule divide_right_mono [OF lo]) simp
  have hi': "n / 2 ^ j \<le> m * (1 + 1 / 2 ^ 53) / 2 ^ j"
    by (rule divide_right_mono [OF hi]) simp
  have unscale: "m * c / 2 ^ j = v * c" for c
    by (simp add: m_def)
  show ?thesis
    using lo' hi' unfolding flv unscale by blast
qed


subsection \<open>A gray pixel keeps its value\<close>

lemma fl_0299: "fl 0.299 = 5386305154335113 / 2 ^ 54"
  by (simp add: fl_def scale_up.simps roundTiesToEven_def)
lemma fl_0587: "fl 0.587 = 2643612981266481 / 2 ^ 52"
  by (simp add: fl_def scale_up.simps roundTiesToEven_def)
lemma fl_0114: "fl 0.114 = 8214565720323785 / 2 ^ 56"
  by (simp add: fl_def scale_up.simps roundTiesToEven_def)

text \<open>
  The three rounded weights do not add up to 1 and the weighted sum of a gray pixel need
  not be its value, but it is closer to it than one half: every operation is off by at
  most one part in \<open>2^53\<close>.
\<close>

lemma weighted_sum_near:
  assumes "0 \<le> v" and "v \<le> 255"
  shows "\<bar>weighted_sum v v v - v\<bar> < 1 / 2"
proof -
  let ?c1 = "5386305154335113 / 2 ^ 54 :: real"
  let ?c2 = "2643612981266481 / 2 ^ 52 :: real"
  let ?c3 = "8214565720323785 / 2 ^ 56 :: real"
  let ?L = "1 - 1 / 2 ^ 53 :: real" and ?U = "1 + 1 / 2 ^ 53 :: real"
  define a1 where "a1 = fl (v * ?c1)"
  define a2 where "a2 = fl (v * ?c2)"
  define a3 where "a3 = fl (v * ?c3)"
  define s1 where "s1 = fl (a1 + a2)"
  define s where "s = fl (s1 + a3)"
  have ws: "weighted_sum v v v = s"
    by (simp only: weighted_sum_def fl_0299 fl_0587 fl_0114 a1_def a2_def a3_def s1_def s_def)
  have r1: "0 \<le> v * ?c1" "v * ?c1 < 2 ^ 52" "0 \<le> v * ?c2" "v * ?c2 < 2 ^ 52"
    "0 \<le> v * ?c3" "v * ?c3 < 2 ^ 52"
    using assms by simp_all
  have b1: "v * ?c1 * ?L \<le> a1" "a1 \<le> v * ?c1 * ?U"
    using fl_relative_error [OF r1(1,2)] by (simp_all add: a1_def)
  have b2: "v * ?c2 * ?L \<le> a2" "a2 \<le> v * ?c2 * ?U"
    using fl_relative_error [OF r1(3,4)] by (simp_all add: a2_def)
  have b3: "v * ?c3 * ?L \<le> a3" "a3 \<le> v * ?c3 * ?U"
    using fl_relative_error [OF r1(5,6)] by (simp_all add: a3_def)
  have r2: "0 \<le> a1 + a2"
    using b1 b2 assms by (simp; linarith?)
  have r2': "a1 + a2 < 2 ^ 52"
    using b1 b2 assms by (simp; linarith?)
  have b4: "(a1 + a2) * ?L \<le> s1" "s1 \<le> (a1 + a2) * ?U"
    using fl_relative_error [OF r2 r2'] by (simp_all add: s1_def)
  have r3: "0 \<le> s1 + a3"
    using b4 b3 r2 b1 b2 assms by (simp; linarith?)
  have r3': "s1 + a3 < 2 ^ 52"
    using b4 b3 r2 b1 b2 assms by (simp; linarith?)
  have b5: "(s1 + a3) * ?L \<le> s" "s \<le> (s1 + a3) * ?U"
    using fl_relative_error [OF r3 r3'] by (simp_all add: s_def)
  have lower: "v - 1 / 2 < s"
    using b1 b2 b3 b4 b5 assms by (simp; linarith?)
  have upper: "s < v + 1 / 2"
    using b1 b2 b3 b4 b5 assms by (simp; linarith?)
  show ?thesis unfolding ws using lower upper by linarith
qed


lemma roundTiesToEven_near_int:
  assumes "\<bar>s - real_of_int n\<bar> < 1 / 2"
  shows "roundTiesToEven s = n"
proof (cases "real_of_int n \<le> s")
  case True
  have "s < real_of_int n + 1" using assms by linarith
  with True have "\<lfloor>s\<rfloor> = n" by (rule floor_unique)
  moreover have "s - real_of_int n < 1 / 2" using assms by linarith
  ultimately show ?thesis by (simp add: roundTiesToEven_def)
next
  case False
  have "real_of_int (n - 1) \<le> s" "s < real_of_int (n - 1) + 1"
    using assms False by simp_all
  then have f: "\<lfloor>s\<rfloor> = n - 1" by (rule floor_unique)
  have "1 / 2 < s - real_of_int (n - 1)" using assms unfolding of_int_diff of_int_1 by linarith
  then show ?thesis using f by (simp add: roundTiesToEven_def)
qed

lemma toUint8Clamp_near_nat:
  assumes "n \<le> 255" and "\<bar>s - real n\<bar> < 1 / 2" and "n = 0 \<longrightarrow> s = 0"
  shows "toUint8Clamp (Some s) = word_of_nat n"
proof (cases "n = 0")
  case True
  then show ?thesis using assms(3) by (simp add: toUint8Clamp_def)
next
  case False
  then have "1 \<le> real n" by simp
  then have pos: "0 < s" using assms(2) by linarith
  show ?thesis
  proof (cases "255 \<le> s")
    case True
    then have "254 < real n" using assms(2) by linarith
    then have "n = 255" using assms(1) by simp
    then show ?thesis using True pos by (simp add: toUint8Clamp_def)
  next
    case False
    have "roundTiesToEven s = int n"
      using roundTiesToEven_near_int [of s "int n"] assms(2) by simp
    then show ?thesis using False pos by (simp add: toUint8Clamp_def)
  qed
qed

lemma weighted_sum_zero: "weighted_sum 0 0 0 = 0"
  by (simp add: weighted_sum_def fl_def)

lemma gray_byte_of_nat:
  assumes "n \<le> 255"
  shows "toUint8Clamp (Some (weighted_sum (real n) (real n) (real n))) = word_of_nat n"
proof -
  have "real n \<le> 255" using assms by simp
  then have near: "\<bar>weighted_sum (real n) (real n) (real n) - real n\<bar> < 1 / 2"
    by (intro weighted_sum_near) simp_all
  have zero: "n = 0 \<longrightarrow> weighted_sum (real n) (real n) (real n) = 0"
    by (simp add: weighted_sum_zero)
  show ?thesis by (rule toUint8Clamp_near_nat [OF assms near zero])
qed

lemma gray_value_fixed: "gray_value v v v = v"
proof -
  have le: "unat v \<le> 255"
    using unsigned_less [of v, where ?'a = nat] by simp
  have "gray_value v v v = word_of_nat (unat v)"
    unfolding gray_value_def by (rule gray_byte_of_nat [OF le])
  then show ?thesis by simp
qed

subsection \<open>The loop\<close>

lemma luminance_append: "luminance (xs @ ys) (length xs) = luminance ys 0"
proof -
  have b0: "byte_at (xs @ ys) (length xs) = byte_at ys 0"
    by (simp add: byte_at_def nth_append)
  have b1: "byte_at (xs @ ys) (length xs + 1) = byte_at ys (0 + 1)"
    by (simp add: byte_at_def nth_append)
  have b2: "byte_at (xs @ ys) (length xs + 2) = byte_at ys (0 + 2)"
    by (simp add: byte_at_def nth_append numeral_2_eq_2)
  show ?thesis unfolding luminance_def b0 b1 b2 ..
qed

lemma update3_append:
  "(xs @ ys)[length xs := v, length xs + 1 := v, length xs + 2 := v]
     = xs @ ys[0 := v, 1 := v, 2 := v]"
  by (simp add: list_update_append)

lemma loop_past_end: "length data \<le> i \<Longrightarrow> grayscale_loop i data = data"
  by (simp add: grayscale_loop.simps)

lemma loop_step:
  assumes "ys \<noteq> []"
  shows "grayscale_loop (length xs) (xs @ ys)
           = grayscale_loop (length xs + 4)
               (xs @ ys[0 := toUint8Clamp (luminance ys 0), 1 := toUint8Clamp (luminance ys 0),
                        2 := toUint8Clamp (luminance ys 0)])"
proof -
  have lt: "length xs < length (xs @ ys)" using assms by simp
  show ?thesis
    by (subst grayscale_loop.simps) (simp only: lt if_True Let_def luminance_append update3_append)
qed

lemma luminance_three: "toUint8Clamp (luminance (r # g # b # rest) 0) = gray_value r g b"
  by (simp add: luminance_def byte_at_def gray_value_def)

lemma luminance_two: "toUint8Clamp (luminance [r, g] 0) = 0"
  by (simp add: luminance_def byte_at_def toUint8Clamp_def)

lemma luminance_one: "toUint8Clamp (luminance [r] 0) = 0"
  by (simp add: luminance_def byte_at_def toUint8Clamp_def)

text \<open>The loop, started behind a prefix, leaves the prefix and transforms the rest.\<close>

lemma grayscale_loop_append:
  "grayscale_loop (length xs) (xs @ ys) = xs @ grayscale_pixels ys"
proof (induction ys arbitrary: xs rule: grayscale_pixels.induct)
  case (1 r g b a rest)
  let ?v = "gray_value r g b"
  have "grayscale_loop (length xs) (xs @ r # g # b # a # rest)
          = grayscale_loop (length xs + 4) (xs @ ?v # ?v # ?v # a # rest)"
    by (subst loop_step) (simp_all add: luminance_three)
  also have "\<dots> = grayscale_loop (length (xs @ [?v, ?v, ?v, a])) ((xs @ [?v, ?v, ?v, a]) @ rest)"
    by (simp add: eval_nat_numeral)
  also have "\<dots> = (xs @ [?v, ?v, ?v, a]) @ grayscale_pixels rest"
    by (rule "1.IH")
  finally show ?case by simp
next
  case (2 r g b)
  have "grayscale_loop (length xs) (xs @ [r, g, b])
          = grayscale_loop (length xs + 4)
              (xs @ [gray_value r g b, gray_value r g b, gray_value r g b])"
    by (subst loop_step) (simp_all add: luminance_three)
  then show ?case by (simp add: loop_past_end)
next
  case (3 r g)
  have "grayscale_loop (length xs) (xs @ [r, g]) = grayscale_loop (length xs + 4) (xs @ [0, 0])"
    by (subst loop_step) (simp_all add: luminance_two)
  then show ?case by (simp add: loop_past_end)
next
  case (4 r)
  have "grayscale_loop (length xs) (xs @ [r]) = grayscale_loop (length xs + 4) (xs @ [0])"
    by (subst loop_step) (simp_all add: luminance_one)
  then show ?case by (simp add: loop_past_end)
next
  case 5
  show ?case by (simp add: loop_past_end)
qed

lemma grayscale_loop_pixels: "grayscale_loop 0 data = grayscale_pixels data"
  using grayscale_loop_append [of "[]" data] by simp

lemma grayscale_pixels_idem: "grayscale_pixels (grayscale_pixels data) = grayscale_pixels data"
  by (induction data rule: grayscale_pixels.induct) (simp_all add: gray_value_fixed)

text \<open>
  Claim C7. For every pixel buffer, running the loop of \<^verbatim>\<open>grayscaleImage\<close> on its own
  result gives that result again.
\<close>

theorem grayscale_idempotent:
  "grayscale_loop 0 (grayscale_loop 0 data) = grayscale_loop 0 data"
  by (simp add: grayscale_loop_pixels grayscale_pixels_idem)

text \<open>
  Two pixels whose weighted sums are \<^verbatim>\<open>59.49999999999999\<close> and \<^verbatim>\<open>72.50000000000001\<close> in
  double precision, where exact arithmetic gives 59.5 and 72.5.
\<close>

lemma weighted_sum_example: "weighted_sum 0 80 110 = 8373880557142015 / 2 ^ 47"
  by (simp add: weighted_sum_def fl_0299 fl_0587 fl_0114 fl_def scale_up.simps roundTiesToEven_def)


lemma grayscale_example:
  "grayscale_loop 0 [0, 80, 110, 255, 5, 113, 41, 7] = [59, 59, 59, 255, 73, 73, 73, 7]"
  by (simp add: grayscale_loop_pixels gray_value_def toUint8Clamp_def weighted_sum_def
      fl_0299 fl_0587 fl_0114 fl_def scale_up.simps roundTiesToEven_def)

section \<open>Page layout\<close>

text \<open>
  Claim C4. For an image with positive width and height and any page size and margin,
  the image is placed with a width and a height within the printable area (the page less
  the margin on every side), and, unless the printable area has no width or no height,
  with the image's own ratio of width to height.
\<close>

theorem layout_fits_printable_area:
  assumes "0 < w" and "0 < h"
  shows "\<exists>g. layout m pw ph w h = Some g
           \<and> printWidth g \<le> pw - 2 * m
           \<and> printHeight g \<le> ph - 2 * m
           \<and> (pw \<noteq> 2 * m \<and> ph \<noteq> 2 * m
                \<longrightarrow> printWidth g / printHeight g = real w / real h
                  \<and> \<bar>printWidth g / printHeight g - real w / real h\<bar> < 1 / 10 ^ 6)"
proof -
  define r where "r = real w / real h"
  have r: "0 < r" using assms by (simp add: r_def)
  define W where "W = pw - 2 * m"
  define H where "H = ph - 2 * m"
  have nz: "pw \<noteq> 2 * m \<longleftrightarrow> W \<noteq> 0" "ph \<noteq> 2 * m \<longleftrightarrow> H \<noteq> 0"
    by (auto simp: W_def H_def)
  show ?thesis
  proof (cases "W / r > H")
    case True
    then have "H * r < W" using r by (simp add: pos_less_divide_eq)
    then show ?thesis
      using True assms r
      by (simp add: layout_def Let_def nz r_def [symmetric] W_def [symmetric] H_def [symmetric])
  next
    case False
    then show ?thesis
      using assms r
      by (simp add: layout_def Let_def nz r_def [symmetric] W_def [symmetric] H_def [symmetric])
  qed
qed

theorem layout_fits_printable_area_witness:
  "(0::nat) < 300 \<and> (0::nat) < 900
   \<and> pageWidth new_jsPDF \<noteq> 2 * margin \<and> pageHeight new_jsPDF \<noteq> 2 * margin
   \<and> (\<exists>g. layout margin (pageWidth new_jsPDF) (pageHeight new_jsPDF) 300 900 = Some g
           \<and> printWidth g \<le> pageWidth new_jsPDF - 2 * margin
           \<and> printHeight g \<le> pageHeight new_jsPDF - 2 * margin
           \<and> printWidth g / printHeight g = real 300 / real 900)"
proof -
  have page: "pageWidth new_jsPDF \<noteq> 2 * margin" "pageHeight new_jsPDF \<noteq> 2 * margin"
    by (simp_all add: margin_def new_jsPDF_def)
  show ?thesis
    using layout_fits_printable_area
      [of 300 900 margin "pageWidth new_jsPDF" "pageHeight new_jsPDF"] page
    by auto
qed

lemma layout_tall_image:
  "layout margin (pageWidth new_jsPDF) (pageHeight new_jsPDF) 300 900
     = Some \<lparr>x_mm = 353 / 6, y_mm = 10, printWidth = 277 / 3, printHeight = 277\<rparr>"
  by (simp add: layout_def margin_def new_jsPDF_def)

text \<open>
  Claim C5, as amended. An image of 1000 by 500 pixels on the A4 page of 210 by 297 mm
  with the margin of 10 mm is placed at \<open>x = 10\<close>, \<open>y = 101\<close> with a width of 190 and a
  height of 95.
\<close>

theorem layout_1000_by_500_on_a4:
  "layout margin (pageWidth new_jsPDF) (pageHeight new_jsPDF) 1000 500
     = Some \<lparr>x_mm = 10, y_mm = 101, printWidth = 190, printHeight = 95\<rparr>
   \<and> margin = 10 \<and> pageWidth new_jsPDF = 210 \<and> pageHeight new_jsPDF = 297"
  by (simp add: layout_def margin_def new_jsPDF_def)

text \<open>The claim as it was stated gives \<open>y = 91\<close>; the code computes \<open>(297 - 95) / 2\<close>.\<close>

theorem layout_1000_by_500_y_is_not_91:
  "layout 10 210 297 1000 500
     \<noteq> Some \<lparr>x_mm = 10, y_mm = 91, printWidth = 190, printHeight = 95\<rparr>"
  by (simp add: layout_def)

section \<open>Assembling the PDF\<close>

lemma pdf_loop_v1_later:
  assumes "\<forall>f \<in> set files. loadImage (url f) \<noteq> None"
  shows "\<exists>doc'. pdf_loop_v1 loadImage q g pw ph files doc False = Inr doc'
           \<and> pages doc'
             = pages doc @ map (\<lambda>f. [page_image_v1 q g pw ph f (the (loadImage (url f)))]) files"
  using assms
proof (induction files arbitrary: doc)
  case Nil
  then show ?case by simp
next
  case (Cons f files)
  then obtain img where img: "loadImage (url f) = Some img" by auto
  let ?doc2 = "addImage (page_image_v1 q g pw ph f img) (addPage doc)"
  from Cons obtain doc' where d: "pdf_loop_v1 loadImage q g pw ph files ?doc2 False = Inr doc'"
    "pages doc'
       = pages ?doc2 @ map (\<lambda>f. [page_image_v1 q g pw ph f (the (loadImage (url f)))]) files"
    by fastforce
  have "pages ?doc2 = pages doc @ [[page_image_v1 q g pw ph f img]]"
    by (simp add: pages_def addImage_def addPage_def)
  then show ?case using d img by simp
qed

lemma pdf_loop_v1_first:
  assumes "\<forall>f \<in> set files. loadImage (url f) \<noteq> None" and "files \<noteq> []"
  shows "\<exists>doc'. pdf_loop_v1 loadImage q g pw ph files new_jsPDF True = Inr doc'
           \<and> pages doc' = map (\<lambda>f. [page_image_v1 q g pw ph f (the (loadImage (url f)))]) files"
proof -
  from assms obtain f rest where fs: "files = f # rest" by (cases files) auto
  with assms obtain img where img: "loadImage (url f) = Some img" by auto
  let ?doc2 = "addImage (page_image_v1 q g pw ph f img) new_jsPDF"
  have "\<forall>f \<in> set rest. loadImage (url f) \<noteq> None" using assms fs by simp
  from pdf_loop_v1_later [OF this, of q g pw ph ?doc2]
  obtain doc' where d: "pdf_loop_v1 loadImage q g pw ph rest ?doc2 False = Inr doc'"
    "pages doc'
       = pages ?doc2 @ map (\<lambda>f. [page_image_v1 q g pw ph f (the (loadImage (url f)))]) rest"
    by blast
  have "pages ?doc2 = [[page_image_v1 q g pw ph f img]]"
    by (simp add: pages_def addImage_def new_jsPDF_def)
  then show ?thesis using d img fs by simp
qed

lemma processAndDownloadPDF_v1_pages:
  assumes "\<forall>f \<in> set files. loadImage (url f) \<noteq> None" and "files \<noteq> []"
  shows "processAndDownloadPDF_v1 loadImage slider files filename g
           = Inr (filename @ ''.pdf'', map (pdf_page_v1 loadImage slider g) files)"
proof -
  let ?q = "case slider of Some v \<Rightarrow> v / 100 | None \<Rightarrow> 0.8"
  let ?page = "\<lambda>f. [page_image_v1 ?q g (pageWidth new_jsPDF) (pageHeight new_jsPDF) f
                       (the (loadImage (url f)))]"
  from pdf_loop_v1_first [OF assms, of ?q g "pageWidth new_jsPDF" "pageHeight new_jsPDF"]
  obtain doc' where d:
    "pdf_loop_v1 loadImage ?q g (pageWidth new_jsPDF) (pageHeight new_jsPDF) files new_jsPDF True
       = Inr doc'"
    "pages doc' = map ?page files"
    by blast
  have "map ?page files = map (pdf_page_v1 loadImage slider g) files"
    using assms(1) by (intro map_cong) (auto simp: pdf_page_v1_def)
  then show ?thesis using d by (simp add: processAndDownloadPDF_v1_def Let_def)
qed

lemma processAndDownloadPDF_v1_empty:
  "processAndDownloadPDF_v1 loadImage slider [] filename g = Inr (filename @ ''.pdf'', [[]])"
  by (simp add: processAndDownloadPDF_v1_def pages_def new_jsPDF_def)

lemma pdf_page_v1_single:
  "loadImage (url f) \<noteq> None \<Longrightarrow> length (pdf_page_v1 loadImage slider g f) = 1"
  by (auto simp: pdf_page_v1_def)

lemma pdf_loop_v2_later:
  assumes "\<forall>f \<in> set files. loadImage (url f) \<noteq> None"
  shows "\<exists>doc'. pdf_loop_v2 loadImage q g pw ph files doc False = Inr doc'
           \<and> pages doc'
             = pages doc @ map (\<lambda>f. [page_image_v2 q g pw ph f (the (loadImage (url f)))]) files"
  using assms
proof (induction files arbitrary: doc)
  case Nil
  then show ?case by simp
next
  case (Cons f files)
  then obtain img where img: "loadImage (url f) = Some img" by auto
  let ?doc2 = "addImage (page_image_v2 q g pw ph f img) (addPage doc)"
  from Cons obtain doc' where d: "pdf_loop_v2 loadImage q g pw ph files ?doc2 False = Inr doc'"
    "pages doc'
       = pages ?doc2 @ map (\<lambda>f. [page_image_v2 q g pw ph f (the (loadImage (url f)))]) files"
    by fastforce
  have "pages ?doc2 = pages doc @ [[page_image_v2 q g pw ph f img]]"
    by (simp add: pages_def addImage_def addPage_def)
  then show ?case using d img by simp
qed

lemma pdf_loop_v2_first:
  assumes "\<forall>f \<in> set files. loadImage (url f) \<noteq> None" and "files \<noteq> []"
  shows "\<exists>doc'. pdf_loop_v2 loadImage q g pw ph files new_jsPDF True = Inr doc'
           \<and> pages doc' = map (\<lambda>f. [page_image_v2 q g pw ph f (the (loadImage (url f)))]) files"
proof -
  from assms obtain f rest where fs: "files = f # rest" by (cases files) auto
  with assms obtain img where img: "loadImage (url f) = Some img" by auto
  let ?doc2 = "addImage (page_image_v2 q g pw ph f img) new_jsPDF"
  have "\<forall>f \<in> set rest. loadImage (url f) \<noteq> None" using assms fs by simp
  from pdf_loop_v2_later [OF this, of q g pw ph ?doc2]
  obtain doc' where d: "pdf_loop_v2 loadImage q g pw ph rest ?doc2 False = Inr doc'"
    "pages doc'
       = pages ?doc2 @ map (\<lambda>f. [page_image_v2 q g pw ph f (the (loadImage (url f)))]) rest"
    by blast
  have "pages ?doc2 = [[page_image_v2 q g pw ph f img]]"
    by (simp add: pages_def addImage_def new_jsPDF_def)
  then show ?thesis using d img fs by simp
qed

lemma processAndDownloadPDF_v2_pages:
  assumes "\<forall>f \<in> set files. loadImage (url f) \<noteq> None" and "files \<noteq> []"
  shows "processAndDownloadPDF_v2 loadImage slider files filename g
           = Inr (filename @ ''.pdf'', map (pdf_page_v2 loadImage slider g) files)"
proof -
  let ?q = "case slider of Some v \<Rightarrow> v / 100 | None \<Rightarrow> PDF_DEFAULT_QUALITY"
  let ?page = "\<lambda>f. [page_image_v2 ?q g (pageWidth new_jsPDF) (pageHeight new_jsPDF) f
                       (the (loadImage (url f)))]"
  from pdf_loop_v2_first [OF assms, of ?q g "pageWidth new_jsPDF" "pageHeight new_jsPDF"]
  obtain doc' where d:
    "pdf_loop_v2 loadImage ?q g (pageWidth new_jsPDF) (pageHeight new_jsPDF) files new_jsPDF True
       = Inr doc'"
    "pages doc' = map ?page files"
    by blast
  have "map ?page files = map (pdf_page_v2 loadImage slider g) files"
    using assms(1) by (intro map_cong) (auto simp: pdf_page_v2_def)
  then show ?thesis using d by (simp add: processAndDownloadPDF_v2_def Let_def)
qed

lemma processAndDownloadPDF_v2_empty:
  "processAndDownloadPDF_v2 loadImage slider [] filename g = Inr (filename @ ''.pdf'', [[]])"
  by (simp add: processAndDownloadPDF_v2_def pages_def new_jsPDF_def)

lemma pdf_page_v2_single:
  "loadImage (url f) \<noteq> None \<Longrightarrow> length (pdf_page_v2 loadImage slider g f) = 1"
  by (auto simp: pdf_page_v2_def)

lemma removeFile_middle:
  assumes "distinct (map fid (before @ f # after))"
  shows "removeFile (fid f) (before @ f # after) = before @ after"
proof -
  have nb: "fid f \<notin> fid ` set before" and na: "fid f \<notin> fid ` set after"
    using assms by auto
  have "filter (\<lambda>g. fid g \<noteq> fid f) before = before"
    using nb by (induction before) auto
  moreover have "filter (\<lambda>g. fid g \<noteq> fid f) after = after"
    using na by (induction after) auto
  ultimately show ?thesis by (simp add: removeFile_def)
qed

text \<open>
  Claim C3, as amended. For a list of at least one file, all of which decode, both
  revisions of \<^verbatim>\<open>processAndDownloadPDF\<close> save a document with one page per file, in the
  order of the list, each page holding the one image made of its file. When the files'
  identifiers are distinct, \<^verbatim>\<open>removeFile\<close> takes one file out of the list, and if
  files remain, the document assembled afterwards has the pages of the remaining files
  in their old order.
\<close>

theorem assembly_one_page_per_file_in_order:
  assumes "\<forall>g \<in> set (before @ f # after). loadImage (url g) \<noteq> None"
  shows "processAndDownloadPDF_v1 loadImage slider (before @ f # after) filename gray
           = Inr (filename @ ''.pdf'',
                  map (pdf_page_v1 loadImage slider gray) (before @ f # after))
       \<and> processAndDownloadPDF_v2 loadImage slider (before @ f # after) filename gray
           = Inr (filename @ ''.pdf'',
                  map (pdf_page_v2 loadImage slider gray) (before @ f # after))
       \<and> (\<forall>g \<in> set (before @ f # after).
             length (pdf_page_v1 loadImage slider gray g) = 1
             \<and> length (pdf_page_v2 loadImage slider gray g) = 1)
       \<and> (distinct (map fid (before @ f # after))
            \<longrightarrow> removeFile (fid f) (before @ f # after) = before @ after)
       \<and> (distinct (map fid (before @ f # after)) \<and> before @ after \<noteq> [] \<longrightarrow>
            processAndDownloadPDF_v1 loadImage slider (removeFile (fid f) (before @ f # after))
                filename gray
              = Inr (filename @ ''.pdf'', map (pdf_page_v1 loadImage slider gray) (before @ after))
            \<and> processAndDownloadPDF_v2 loadImage slider (removeFile (fid f) (before @ f # after))
                filename gray
              = Inr (filename @ ''.pdf'', map (pdf_page_v2 loadImage slider gray) (before @ after)))"
proof -
  have ne: "before @ f # after \<noteq> []" by simp
  have rest: "\<forall>g \<in> set (before @ after). loadImage (url g) \<noteq> None"
    using assms by auto
  have single: "\<forall>g \<in> set (before @ f # after).
      length (pdf_page_v1 loadImage slider gray g) = 1
      \<and> length (pdf_page_v2 loadImage slider gray g) = 1"
    using assms pdf_page_v1_single pdf_page_v2_single by blast
  have removed: "processAndDownloadPDF_v1 loadImage slider
          (removeFile (fid f) (before @ f # after)) filename gray
        = Inr (filename @ ''.pdf'', map (pdf_page_v1 loadImage slider gray) (before @ after))
      \<and> processAndDownloadPDF_v2 loadImage slider
          (removeFile (fid f) (before @ f # after)) filename gray
        = Inr (filename @ ''.pdf'', map (pdf_page_v2 loadImage slider gray) (before @ after))"
    if "distinct (map fid (before @ f # after))" and "before @ after \<noteq> []"
    unfolding removeFile_middle [OF that(1)]
    using processAndDownloadPDF_v1_pages [OF rest that(2), of slider filename gray]
      processAndDownloadPDF_v2_pages [OF rest that(2), of slider filename gray]
    by simp
  show ?thesis
    using processAndDownloadPDF_v1_pages [OF assms ne, of slider filename gray]
      processAndDownloadPDF_v2_pages [OF assms ne, of slider filename gray]
      single removeFile_middle [of before f after] removed
    by blast
qed

theorem assembly_one_page_per_file_in_order_witness:
  "list_all (\<lambda>g. load_two_pixels (url g) \<noteq> None) three_jpegs
   \<and> distinct (map fid three_jpegs)
   \<and> processAndDownloadPDF_v1 load_two_pixels (Some 80) three_jpegs ''out'' False
       = Inr (''out.pdf'', map (pdf_page_v1 load_two_pixels (Some 80) False) three_jpegs)
   \<and> removeFile ''b'' three_jpegs = [jpeg_file ''a'' 1000000, jpeg_file ''c'' 500000]
   \<and> processAndDownloadPDF_v1 load_two_pixels (Some 80) (removeFile ''b'' three_jpegs) ''out'' False
       = Inr (''out.pdf'', map (pdf_page_v1 load_two_pixels (Some 80) False)
                [jpeg_file ''a'' 1000000, jpeg_file ''c'' 500000])"
proof -
  let ?a = "jpeg_file ''a'' 1000000" and ?b = "jpeg_file ''b'' 2000000"
    and ?c = "jpeg_file ''c'' 500000"
  have split: "three_jpegs = [?a] @ ?b # [?c]"
    by (simp add: three_jpegs_def)
  have loads: "\<forall>g \<in> set ([?a] @ ?b # [?c]). load_two_pixels (url g) \<noteq> None"
    by (simp add: load_two_pixels_def)
  have ids: "distinct (map fid three_jpegs)"
    by (simp add: three_jpegs_def jpeg_file_def)
  have b: "fid ?b = ''b''"
    by (simp add: jpeg_file_def)
  note inst = assembly_one_page_per_file_in_order
    [OF loads, of "Some 80" "''out''" False, folded split, unfolded b]
  have all: "processAndDownloadPDF_v1 load_two_pixels (Some 80) three_jpegs ''out'' False
       = Inr (''out.pdf'', map (pdf_page_v1 load_two_pixels (Some 80) False) three_jpegs)"
    using inst [THEN conjunct1] by simp
  have rm: "removeFile ''b'' three_jpegs = [?a, ?c]"
    using inst [THEN conjunct2, THEN conjunct2, THEN conjunct2, THEN conjunct1] ids by simp
  have less: "processAndDownloadPDF_v1 load_two_pixels (Some 80) [?a, ?c] ''out'' False
       = Inr (''out.pdf'', map (pdf_page_v1 load_two_pixels (Some 80) False) [?a, ?c])"
    using inst [THEN conjunct2, THEN conjunct2, THEN conjunct2, THEN conjunct2, unfolded rm] ids
    by simp
  show ?thesis
    using loads ids all less unfolding rm split [symmetric] by (simp add: list_all_iff)
qed

text \<open>
  The claim as it was stated covers the empty list, for which it fails: the document
  saved for no file has one page, the empty page the constructor made.
\<close>

theorem assembly_of_no_file_has_one_page:
  "processAndDownloadPDF_v1 load_two_pixels (Some 80) [] ''out'' False = Inr (''out.pdf'', [[]])
   \<and> length [[] :: placement list] = 1
   \<and> length ([] :: pdf_file list) = 0"
  by (simp add: processAndDownloadPDF_v1_def pages_def new_jsPDF_def)

text \<open>
  Claim C9, as amended. The empty list is refused where the dialog is opened:
  \<^verbatim>\<open>showNameModal\<close> alerts the user and does not show the dialog that starts the
  assembly. \<^verbatim>\<open>processAndDownloadPDF\<close> itself does not test the list: called with the
  empty list it raises no error and saves a document of one empty page.
\<close>

theorem empty_list_refused_by_dialog_only:
  "showNameModal isGrayscale [] d = Inl NoImageSelected
   \<and> processAndDownloadPDF_v1 loadImage slider [] filename gray
       = Inr (filename @ ''.pdf'', [[]])
   \<and> processAndDownloadPDF_v2 loadImage slider [] filename gray
       = Inr (filename @ ''.pdf'', [[]])"
  by (simp add: showNameModal_def processAndDownloadPDF_v1_empty processAndDownloadPDF_v2_empty)

text \<open>
  The claim as it was stated fails for the assembling function: on the empty list it
  does not end with the error but with a saved document.
\<close>

theorem assembly_of_no_file_saves_a_document:
  "processAndDownloadPDF_v2 load_two_pixels None [] ''Untitled_Document'' False
     = Inr (''Untitled_Document.pdf'', [[]])
   \<and> processAndDownloadPDF_v2 load_two_pixels None [] ''Untitled_Document'' False
     \<noteq> Inl NoImageSelected"
  by (simp add: processAndDownloadPDF_v2_def pages_def new_jsPDF_def)

section \<open>The output format\<close>

text \<open>
  In the later revision the format handed to \<^verbatim>\<open>doc.addImage\<close> and the type the image is
  encoded with are chosen by two different tests.
\<close>

lemma format_v2:
  "format (page_image_v2 quality gray pw ph f img)
     = (if \<not> gray \<and> str_includes (ftype f) ''png'' \<and> quality = 1 then ''PNG'' else ''JPEG'')"
  by (simp add: page_image_v2_def)

lemma mime_v2:
  "mime (dataURL (page_image_v2 quality gray pw ph f img))
     = (if gray \<or> str_includes (ftype f) ''jpeg'' \<or> str_includes (ftype f) ''webp''
        then ''image/jpeg'' else ''image/png'')"
  by (simp add: page_image_v2_def compressAndConvertToBase64_v2_def grayscaleImage_def)

lemma format_v1: "format (page_image_v1 quality gray pw ph f img) = ''JPEG''"
  by (simp add: page_image_v1_def)

lemma mime_v1: "mime (dataURL (page_image_v1 quality gray pw ph f img)) = ''image/jpeg''"
  by (simp add: page_image_v1_def compressAndConvertToBase64_v1_def grayscaleImage_def)

text \<open>
  Claim C2. The claim says that a source which is not a PNG at quality 100 without
  grayscale always comes out as JPEG. For a PNG file at a quality of 50 without grayscale,
  the later revision hands the format \<^verbatim>\<open>JPEG\<close> to \<^verbatim>\<open>doc.addImage\<close>, but
  \<^verbatim>\<open>compressAndConvertToBase64\<close> has encoded the image as \<^verbatim>\<open>image/png\<close>.
\<close>

theorem png_at_quality_50_is_encoded_as_png:
  "mime (compressAndConvertToBase64_v2 two_pixels (ftype (png_file ''p'' 4000000)) (50 / 100))
     = ''image/png''
   \<and> map (\<lambda>p. mime (dataURL p)) (pdf_page_v2 load_two_pixels (Some 50) False (png_file ''p'' 4000000))
     = [''image/png'']
   \<and> map format (pdf_page_v2 load_two_pixels (Some 50) False (png_file ''p'' 4000000))
     = [''JPEG'']"
  by (simp add: pdf_page_v2_def load_two_pixels_def mime_v2 format_v2 png_file_def
      compressAndConvertToBase64_v2_def)

end
